theory Spec2Isabelle
  imports Main
begin

section \<open>MediMatch: the drug interaction route\<close>

text \<open>
  A shallow embedding of the API route that checks drug--drug interactions
  (\<^verbatim>\<open>POST\<close>, with its helpers \<^verbatim>\<open>normalizeDrugName\<close>, \<^verbatim>\<open>normalizeSeverity\<close> and
  \<^verbatim>\<open>findInteractionInTable\<close>).  The database client is an external collaborator and
  enters the model as a parameter: a function from the query the route builds to the
  answer the client gives.
\<close>

subsection \<open>JavaScript values and strings\<close>

text \<open>
  The values the route handles: fields of the parsed request body, cells of the rows
  the store returns, fields of the JSON response.  \<open>JUndefined\<close> is a missing
  property, \<open>JObj\<close> any object or array.  Numbers are kept as integers: the route
  only tests them for truthiness.
\<close>

datatype jsval = JUndefined | JNull | JBool bool | JNum int | JStr string | JObj

text \<open>What \<^verbatim>\<open>!v\<close> and \<^verbatim>\<open>v || w\<close> test.\<close>

fun truthy :: "jsval \<Rightarrow> bool" where
  "truthy JUndefined = False"
| "truthy JNull = False"
| "truthy (JBool b) = b"
| "truthy (JNum n) = (n \<noteq> 0)"
| "truthy (JStr s) = (s \<noteq> [])"
| "truthy JObj = True"

text \<open>The exceptions that can reach one of the two \<^verbatim>\<open>catch\<close> blocks.\<close>

datatype exn = TypeError | SyntaxError | ClientError | QueryRejected

text \<open>
  A string is a list of characters, each read as one code unit below 256.  On that
  range \<^verbatim>\<open>toLowerCase\<close> maps \<open>A\<close>--\<open>Z\<close> and the accented capitals 192--222 (without
  the multiplication sign 215) 32 places up and leaves every other unit alone, and
  \<^verbatim>\<open>trim\<close> strips tab, line feed, vertical tab, form feed, carriage return, space and
  the no-break space from both ends.
\<close>

definition isUpper :: "char \<Rightarrow> bool" where
  "isUpper c = (let n = (of_char c :: nat) in
     (65 \<le> n \<and> n \<le> 90) \<or> (192 \<le> n \<and> n \<le> 222 \<and> n \<noteq> 215))"

definition lowerChar :: "char \<Rightarrow> char" where
  "lowerChar c = (if isUpper c then char_of ((of_char c :: nat) + 32) else c)"

definition toLowerCase :: "string \<Rightarrow> string" where
  "toLowerCase s = map lowerChar s"

definition isSpace :: "char \<Rightarrow> bool" where
  "isSpace c = ((of_char c :: nat) \<in> {9, 10, 11, 12, 13, 32, 160})"

definition trim :: "string \<Rightarrow> string" where
  "trim s = rev (dropWhile isSpace (rev (dropWhile isSpace s)))"

text \<open>\<^verbatim>\<open>s.includes(t)\<close>: \<open>t\<close> occurs in \<open>s\<close> as a contiguous run.\<close>

fun startsWith :: "string \<Rightarrow> string \<Rightarrow> bool" where
  "startsWith s [] = True"
| "startsWith [] (d # t) = False"
| "startsWith (c # s) (d # t) = (c = d \<and> startsWith s t)"

fun str_includes :: "string \<Rightarrow> string \<Rightarrow> bool" where
  "str_includes [] t = (t = [])"
| "str_includes (c # s) t = (startsWith (c # s) t \<or> str_includes s t)"

text \<open>
  A method call on a value that has no such method throws a \<^verbatim>\<open>TypeError\<close>: only
  strings have \<^verbatim>\<open>toLowerCase\<close> and \<^verbatim>\<open>trim\<close>.
\<close>

fun callToLowerCase :: "jsval \<Rightarrow> exn + string" where
  "callToLowerCase (JStr s) = Inr (toLowerCase s)"
| "callToLowerCase v = Inl TypeError"

fun callTrim :: "jsval \<Rightarrow> exn + string" where
  "callTrim (JStr s) = Inr (trim s)"
| "callTrim v = Inl TypeError"

subsection \<open>The normalizers\<close>

text \<open>\<^verbatim>\<open>return drug.toLowerCase().trim()\<close>\<close>

definition normalizeDrugName :: "jsval \<Rightarrow> exn + string" where
  "normalizeDrugName drug =
     (case callToLowerCase drug of Inl e \<Rightarrow> Inl e | Inr l \<Rightarrow> Inr (trim l))"

text \<open>
  \<^verbatim>\<open>const s = (sev || "").toLowerCase()\<close>, then the three \<^verbatim>\<open>includes\<close> tests in order.
  The result is one of four string literals.
\<close>

definition normalizeSeverity :: "jsval \<Rightarrow> exn + string" where
  "normalizeSeverity sev =
     (case callToLowerCase (if truthy sev then sev else JStr []) of
        Inl e \<Rightarrow> Inl e
      | Inr s \<Rightarrow>
          if str_includes s ''major'' then Inr ''Major''
          else if str_includes s ''moderate'' then Inr ''Moderate''
          else if str_includes s ''minor'' then Inr ''Minor''
          else Inr ''None'')"

text \<open>The closed union \<^verbatim>\<open>"Major" | "Moderate" | "Minor" | "None"\<close> of the interface.\<close>

definition Severity :: "jsval set" where
  "Severity = {JStr ''Major'', JStr ''Moderate'', JStr ''Minor'', JStr ''None''}"

subsection \<open>The store client\<close>

text \<open>
  A row is an object with one property for each selected column; a cell is text or
  \<^verbatim>\<open>null\<close>, as the row types of the route declare.  Reading a property the row does
  not have gives \<^verbatim>\<open>undefined\<close>.
\<close>

type_synonym row = "(string \<times> string option) list"

definition cell :: "row \<Rightarrow> string \<Rightarrow> jsval" where
  "cell r k = (case map_of r k of None \<Rightarrow> JUndefined
                | Some None \<Rightarrow> JNull
                | Some (Some s) \<Rightarrow> JStr s)"

text \<open>
  What the query builder collects:
  \<^verbatim>\<open>supabase.from(t).select(cols).ilike(c1, p1).ilike(c2, p2).limit(n)\<close>.
  The comma-separated column list is kept as a list.
\<close>

record query =
  q_from :: string
  q_select :: "string list"
  q_ilike :: "(string \<times> string) list"
  q_limit :: nat

text \<open>
  Awaiting a query either rejects or resolves to \<^verbatim>\<open>{ error, data }\<close>: the error is
  \<^verbatim>\<open>null\<close> or an object with a message, the data \<^verbatim>\<open>null\<close> or an array of rows.
\<close>

datatype qresult = Rejected | Resolved "string option" "row list option"

type_synonym connector = "query \<Rightarrow> qresult"

text \<open>What the route does that can be observed besides its response.\<close>

datatype event =
    Query query
  | ConsoleError string string
  | ConsoleErrorExn string exn

subsection \<open>The route\<close>

text \<open>The canonical shape returned to the UI; an optional field may be \<^verbatim>\<open>undefined\<close>.\<close>

record DrugInteraction =
  drug1 :: jsval
  drug2 :: jsval
  severity :: jsval
  description :: jsval
  interaction :: jsval

text \<open>The two selections of \<^verbatim>\<open>findInteractionInTable\<close>, each with its two filters.\<close>

definition selectA :: "string \<Rightarrow> string \<Rightarrow> string \<Rightarrow> query" where
  "selectA tableName p q =
     \<lparr>q_from = tableName,
      q_select = [''drug1'', ''drug2'', ''severity'', ''description'', ''interaction''],
      q_ilike = [(''drug1'', p), (''drug2'', q)],
      q_limit = 1\<rparr>"

definition selectB :: "string \<Rightarrow> string \<Rightarrow> string \<Rightarrow> query" where
  "selectB tableName p q =
     \<lparr>q_from = tableName,
      q_select = [''primary_drug_name'', ''secondary_drug_name'', ''interaction_severity''],
      q_ilike = [(''primary_drug_name'', p), (''secondary_drug_name'', q)],
      q_limit = 1\<rparr>"

text \<open>
  \<^verbatim>\<open>!r.error && r.data && r.data.length > 0\<close>, and then \<^verbatim>\<open>r.data[0]\<close>.
\<close>

fun firstRow :: "string option \<Rightarrow> row list option \<Rightarrow> row option" where
  "firstRow (Some e) d = None"
| "firstRow None None = None"
| "firstRow None (Some []) = None"
| "firstRow None (Some (r # rs)) = Some r"

text \<open>\<^verbatim>\<open>data[0] as DrugInteraction\<close>: the row itself, read through the interface.\<close>

definition asDrugInteraction :: "row \<Rightarrow> DrugInteraction" where
  "asDrugInteraction r =
     \<lparr>drug1 = cell r ''drug1'', drug2 = cell r ''drug2'', severity = cell r ''severity'',
      description = cell r ''description'', interaction = cell r ''interaction''\<rparr>"

text \<open>The object built from a row of the second variant.\<close>

definition fromDDInterRow :: "row \<Rightarrow> exn + DrugInteraction" where
  "fromDDInterRow r =
     (case normalizeSeverity (cell r ''interaction_severity'') of
        Inl e \<Rightarrow> Inl e
      | Inr sev \<Rightarrow>
          Inr \<lparr>drug1 = cell r ''primary_drug_name'', drug2 = cell r ''secondary_drug_name'',
               severity = JStr sev, description = JUndefined, interaction = JUndefined\<rparr>)"

text \<open>\<^verbatim>\<open>[...].filter(Boolean).map((e) => e.message).join(" | ")\<close>\<close>

fun join :: "string \<Rightarrow> string list \<Rightarrow> string" where
  "join sep [] = []"
| "join sep [x] = x"
| "join sep (x # y # zs) = x @ sep @ join sep (y # zs)"

definition readErrors :: "string \<Rightarrow> string option list \<Rightarrow> event list" where
  "readErrors tableName errs =
     (if list_ex (\<lambda>e. e \<noteq> None) errs
      then [ConsoleError (''Supabase read errors for table '' @ tableName @ '':'')
              (join '' | '' (List.map_filter (\<lambda>e. e) errs))]
      else [])"

text \<open>
  \<^verbatim>\<open>findInteractionInTable\<close>, with the two normalized names it closes over as
  arguments.  It returns a matching record, or \<^verbatim>\<open>null\<close> (here \<open>None\<close>), or it throws;
  the second component lists the queries it awaited and what it logged.
\<close>

definition findInteractionInTable ::
  "connector \<Rightarrow> string \<Rightarrow> string \<Rightarrow> string \<Rightarrow> (exn + DrugInteraction option) \<times> event list" where
  "findInteractionInTable supabase normalizedDrug1 normalizedDrug2 tableName =
     (let like1 = ''%'' @ normalizedDrug1 @ ''%'';
          like2 = ''%'' @ normalizedDrug2 @ ''%'';
          firstA = selectA tableName like1 like2;
          firstB = selectB tableName like1 like2;
          secondA = selectA tableName like2 like1;
          secondB = selectB tableName like2 like1
      in case supabase firstA of
           Rejected \<Rightarrow> (Inl QueryRejected, [Query firstA])
         | Resolved eA1 dA1 \<Rightarrow>
      (case firstRow eA1 dA1 of
           Some r \<Rightarrow> (Inr (Some (asDrugInteraction r)), [Query firstA])
         | None \<Rightarrow>
      (case supabase firstB of
           Rejected \<Rightarrow> (Inl QueryRejected, [Query firstA, Query firstB])
         | Resolved eB1 dB1 \<Rightarrow>
      (case firstRow eB1 dB1 of
           Some r \<Rightarrow> (map_sum (\<lambda>e. e) Some (fromDDInterRow r), [Query firstA, Query firstB])
         | None \<Rightarrow>
      (case supabase secondA of
           Rejected \<Rightarrow> (Inl QueryRejected, [Query firstA, Query firstB, Query secondA])
         | Resolved eA2 dA2 \<Rightarrow>
      (case firstRow eA2 dA2 of
           Some r \<Rightarrow>
             (Inr (Some (asDrugInteraction r)), [Query firstA, Query firstB, Query secondA])
         | None \<Rightarrow>
      (case supabase secondB of
           Rejected \<Rightarrow>
             (Inl QueryRejected, [Query firstA, Query firstB, Query secondA, Query secondB])
         | Resolved eB2 dB2 \<Rightarrow>
      (case firstRow eB2 dB2 of
           Some r \<Rightarrow>
             (map_sum (\<lambda>e. e) Some (fromDDInterRow r),
              [Query firstA, Query firstB, Query secondA, Query secondB])
         | None \<Rightarrow>
             (Inr None,
              [Query firstA, Query firstB, Query secondA, Query secondB]
              @ readErrors tableName [eA1, eB1, eA2, eB2])))))))))"

text \<open>
  \<^verbatim>\<open>process.env.NEXT_PUBLIC_DRUG_INTERACTIONS_TABLE || "drug_interactions"\<close> and the two
  fixed names; the argument is the environment variable, \<open>None\<close> when it is not set.
\<close>

definition tableCandidates :: "string option \<Rightarrow> string list" where
  "tableCandidates envTable =
     [(case envTable of None \<Rightarrow> ''drug_interactions''
        | Some t \<Rightarrow> if t = [] then ''drug_interactions'' else t),
      ''DrugInteraction'',
      ''druginteraction'']"

text \<open>
  The loop over the candidates: it leaves at the first record, and goes on to the next
  candidate both after \<^verbatim>\<open>null\<close> and after an exception.
\<close>

fun tryCandidates ::
  "connector \<Rightarrow> string \<Rightarrow> string \<Rightarrow> string list \<Rightarrow> DrugInteraction option \<times> event list" where
  "tryCandidates supabase n1 n2 [] = (None, [])"
| "tryCandidates supabase n1 n2 (tableName # rest) =
     (case findInteractionInTable supabase n1 n2 tableName of
        (Inr (Some found), evs) \<Rightarrow> (Some found, evs)
      | (Inr None, evs) \<Rightarrow>
          (case tryCandidates supabase n1 n2 rest of (res, evs') \<Rightarrow> (res, evs @ evs'))
      | (Inl e, evs) \<Rightarrow>
          (case tryCandidates supabase n1 n2 rest of (res, evs') \<Rightarrow> (res, evs @ evs')))"

text \<open>The response: a status and a JSON body.\<close>

datatype resp_body = ErrorBody string | InteractionBody DrugInteraction

record http_response =
  status :: nat
  payload :: resp_body

text \<open>
  What \<^verbatim>\<open>await request.json()\<close> followed by \<^verbatim>\<open>const { drug1, drug2 } = body\<close> can give:
  the body is not JSON, the body is \<^verbatim>\<open>null\<close> (which cannot be destructured), or the
  two properties are read, each \<^verbatim>\<open>undefined\<close> when the body does not have it.
\<close>

datatype request = BadJson | NullBody | Fields jsval jsval

definition fallbackDescription :: string where
  "fallbackDescription =
     ''No known significant interactions found between these medications in our database.''"

definition fallbackInteraction :: string where
  "fallbackInteraction =
     ''Based on current medical data, these medications do not have significant documented interactions. However, always consult with your healthcare provider as individual factors may affect medication interactions.''"

text \<open>The two success responses at the end of the handler.\<close>

definition respond :: "jsval \<Rightarrow> jsval \<Rightarrow> DrugInteraction option \<Rightarrow> exn + http_response" where
  "respond d1 d2 found =
     (case callTrim d1 of Inl e \<Rightarrow> Inl e | Inr t1 \<Rightarrow>
      (case callTrim d2 of Inl e \<Rightarrow> Inl e | Inr t2 \<Rightarrow>
       (case found of
          Some i \<Rightarrow>
            Inr \<lparr>status = 200,
                 payload = InteractionBody
                   \<lparr>drug1 = JStr t1, drug2 = JStr t2, severity = severity i,
                    description = description i, interaction = interaction i\<rparr>\<rparr>
        | None \<Rightarrow>
            Inr \<lparr>status = 200,
                 payload = InteractionBody
                   \<lparr>drug1 = JStr t1, drug2 = JStr t2, severity = JStr ''None'',
                    description = JStr fallbackDescription,
                    interaction = JStr fallbackInteraction\<rparr>\<rparr>)))"

text \<open>
  The body of the outer \<^verbatim>\<open>try\<close>.  The client is \<open>None\<close> when
  \<^verbatim>\<open>getSupabaseServerClient()\<close> throws.
\<close>

definition handle ::
  "connector option \<Rightarrow> string option \<Rightarrow> request \<Rightarrow> (exn + http_response) \<times> event list" where
  "handle client envTable req =
     (case client of
        None \<Rightarrow> (Inl ClientError, [])
      | Some supabase \<Rightarrow>
     (case req of
        BadJson \<Rightarrow> (Inl SyntaxError, [])
      | NullBody \<Rightarrow> (Inl TypeError, [])
      | Fields d1 d2 \<Rightarrow>
          if \<not> truthy d1 \<or> \<not> truthy d2
          then (Inr \<lparr>status = 400, payload = ErrorBody ''Both drug names are required''\<rparr>, [])
          else
     (case normalizeDrugName d1 of
        Inl e \<Rightarrow> (Inl e, [])
      | Inr normalizedDrug1 \<Rightarrow>
     (case normalizeDrugName d2 of
        Inl e \<Rightarrow> (Inl e, [])
      | Inr normalizedDrug2 \<Rightarrow>
     (case tryCandidates supabase normalizedDrug1 normalizedDrug2 (tableCandidates envTable) of
        (found, evs) \<Rightarrow> (respond d1 d2 found, evs))))))"

text \<open>The handler with its outer \<^verbatim>\<open>catch\<close>.\<close>

definition POST ::
  "connector option \<Rightarrow> string option \<Rightarrow> request \<Rightarrow> http_response \<times> event list" where
  "POST client envTable req =
     (case handle client envTable req of
        (Inr resp, evs) \<Rightarrow> (resp, evs)
      | (Inl e, evs) \<Rightarrow>
          (\<lparr>status = 500, payload = ErrorBody ''Internal server error''\<rparr>,
           evs @ [ConsoleErrorExn ''Error checking drug interaction:'' e]))"

subsection \<open>A record store\<close>

text \<open>
  The store behind the client is not part of the repository.  The definitions of this
  subsection give one such store, after what the specification asks of it: a
  case-insensitive substring ("contains") filter on a named field, limit-one
  retrieval, and an empty result kept apart from a failure such as a missing table or
  column.  The properties of the route are proved for every client; this store serves
  as the concrete client of the examples.
\<close>

text \<open>
  Modelled from the spec: the text between the two \<^verbatim>\<open>%\<close> of a pattern \<^verbatim>\<open>%x%\<close>, the form
  in which the route writes "contains x".
\<close>

definition wildcardBody :: "string \<Rightarrow> string option" where
  "wildcardBody p =
     (if 2 \<le> length p \<and> hd p = CHR ''%'' \<and> last p = CHR ''%''
      then Some (butlast (tl p)) else None)"

text \<open>
  Modelled from the spec: the case-insensitive "contains" filter of the store
  connector.  A field matches \<^verbatim>\<open>%x%\<close> when it contains \<open>x\<close>, both lower-cased; a
  pattern of another form has to equal the field.
\<close>

definition ilike :: "string \<Rightarrow> string \<Rightarrow> bool" where
  "ilike field p =
     (case wildcardBody p of
        Some x \<Rightarrow> str_includes (toLowerCase field) (toLowerCase x)
      | None \<Rightarrow> toLowerCase field = toLowerCase p)"

text \<open>
  Modelled from the spec: the filter on a named field of a record.  A field that is
  \<^verbatim>\<open>null\<close> matches nothing.
\<close>

fun cellMatches :: "row \<Rightarrow> string \<times> string \<Rightarrow> bool" where
  "cellMatches r (c, p) = (case cell r c of JStr s \<Rightarrow> ilike s p | _ \<Rightarrow> False)"

text \<open>
  Modelled from the spec: a source (table) of the store, with the names of its fields
  and its records in the store's natural order.
\<close>

record table =
  t_columns :: "string list"
  t_rows :: "row list"

text \<open>Modelled from the spec: the store, from source identifiers to sources.\<close>

type_synonym store = "string \<Rightarrow> table option"

text \<open>Modelled from the spec: a record cut down to the selected fields.\<close>

definition project :: "string list \<Rightarrow> row \<Rightarrow> row" where
  "project cols r = filter (\<lambda>kv. fst kv \<in> set cols) r"

text \<open>
  Modelled from the spec: the store connector.  A query on a missing table, or one
  naming a column its table does not have, resolves with an error and no data;
  otherwise it resolves with the first records, up to the limit, that pass every
  filter.  It never rejects.
\<close>

definition storeClient :: "store \<Rightarrow> connector" where
  "storeClient db q =
     (case db (q_from q) of
        None \<Rightarrow> Resolved (Some ''relation does not exist'') None
      | Some t \<Rightarrow>
          if list_ex (\<lambda>c. c \<notin> set (t_columns t)) (q_select q @ map fst (q_ilike q))
          then Resolved (Some ''column does not exist'') None
          else Resolved None
                 (Some (take (q_limit q)
                    (map (project (q_select q))
                       (filter (\<lambda>r. list_all (cellMatches r) (q_ilike q)) (t_rows t))))))"

text \<open>Modelled from the spec: the fields of a record of Shape A ("direct").\<close>

definition legacyColumns :: "string list" where
  "legacyColumns = [''drug1'', ''drug2'', ''severity'', ''description'', ''interaction'']"

text \<open>Modelled from the spec: the fields of a record of Shape B ("paired-name").\<close>

definition ddinterColumns :: "string list" where
  "ddinterColumns = [''primary_drug_name'', ''secondary_drug_name'', ''interaction_severity'']"

text \<open>
  Modelled from the spec: a record of Shape A with its two names and its severity
  text, and neither description nor interaction.
\<close>

definition legacyRow :: "string \<Rightarrow> string \<Rightarrow> string \<Rightarrow> row" where
  "legacyRow a b sev =
     [(''drug1'', Some a), (''drug2'', Some b), (''severity'', Some sev),
      (''description'', None), (''interaction'', None)]"

text \<open>Modelled from the spec: a record of Shape B.\<close>

definition ddinterRow :: "string \<Rightarrow> string \<Rightarrow> string \<Rightarrow> row" where
  "ddinterRow a b sev =
     [(''primary_drug_name'', Some a), (''secondary_drug_name'', Some b),
      (''interaction_severity'', Some sev)]"

text \<open>
  Modelled from the spec: a store whose only source holds records of Shape A, under
  the default source identifier.
\<close>

definition legacyStore :: "row list \<Rightarrow> store" where
  "legacyStore rs =
     (\<lambda>t. if t = ''drug_interactions''
          then Some \<lparr>t_columns = legacyColumns, t_rows = rs\<rparr> else None)"

text \<open>
  Modelled from the spec: a store whose only source holds records of Shape B, under
  the default source identifier.
\<close>

definition ddinterStore :: "row list \<Rightarrow> store" where
  "ddinterStore rs =
     (\<lambda>t. if t = ''drug_interactions''
          then Some \<lparr>t_columns = ddinterColumns, t_rows = rs\<rparr> else None)"

subsection \<open>Notions used to state the properties\<close>

text \<open>The queries a request issued, in order, and what it wrote to the console.\<close>

fun queriesOf :: "event list \<Rightarrow> query list" where
  "queriesOf [] = []"
| "queriesOf (Query q # evs) = q # queriesOf evs"
| "queriesOf (ev # evs) = queriesOf evs"

fun consoleOf :: "event list \<Rightarrow> event list" where
  "consoleOf [] = []"
| "consoleOf (Query q # evs) = consoleOf evs"
| "consoleOf (ev # evs) = ev # consoleOf evs"

text \<open>The record a query yields, if it resolves without error to at least one row.\<close>

definition firstHit :: "connector \<Rightarrow> query \<Rightarrow> row option" where
  "firstHit supabase q =
     (case supabase q of Rejected \<Rightarrow> None | Resolved e d \<Rightarrow> firstRow e d)"

definition hit :: "connector \<Rightarrow> query \<Rightarrow> bool" where
  "hit supabase q = (firstHit supabase q \<noteq> None)"

definition rejects :: "connector \<Rightarrow> query \<Rightarrow> bool" where
  "rejects supabase q = (supabase q = Rejected)"

text \<open>A query that fails: it rejects, or it resolves with an error object.\<close>

definition fails :: "connector \<Rightarrow> query \<Rightarrow> bool" where
  "fails supabase q =
     (case supabase q of Rejected \<Rightarrow> True | Resolved e d \<Rightarrow> e \<noteq> None)"

text \<open>The error object of a resolved query, if it has one.\<close>

definition errorOf :: "connector \<Rightarrow> query \<Rightarrow> string option" where
  "errorOf supabase q = (case supabase q of Rejected \<Rightarrow> None | Resolved e d \<Rightarrow> e)"

text \<open>
  The four sub-queries of one source for the normalized names \<open>a\<close> and \<open>b\<close>, in the
  order of the specification: variant A with (a, b), variant B with (a, b), variant A
  with (b, a), variant B with (b, a).
\<close>

definition subqueries :: "string \<Rightarrow> string \<Rightarrow> string \<Rightarrow> query list" where
  "subqueries a b t =
     [selectA t (''%'' @ a @ ''%'') (''%'' @ b @ ''%''),
      selectB t (''%'' @ a @ ''%'') (''%'' @ b @ ''%''),
      selectA t (''%'' @ b @ ''%'') (''%'' @ a @ ''%''),
      selectB t (''%'' @ b @ ''%'') (''%'' @ a @ ''%'')]"

text \<open>The prefix of a list up to and including its first element with a property.\<close>

fun takeThrough :: "('a \<Rightarrow> bool) \<Rightarrow> 'a list \<Rightarrow> 'a list" where
  "takeThrough P [] = []"
| "takeThrough P (x # xs) = (if P x then [x] else x # takeThrough P xs)"

text \<open>The fallback response for the two trimmed names.\<close>

definition fallback :: "string \<Rightarrow> string \<Rightarrow> http_response" where
  "fallback t1 t2 =
     \<lparr>status = 200,
      payload = InteractionBody
        \<lparr>drug1 = JStr t1, drug2 = JStr t2, severity = JStr ''None'',
         description = JStr fallbackDescription,
         interaction = JStr fallbackInteraction\<rparr>\<rparr>"

section \<open>Properties\<close>

subsection \<open>Text containment\<close>

lemma startsWith_iff: "startsWith s t \<longleftrightarrow> (\<exists>q. s = t @ q)"
  by (induction s t rule: startsWith.induct) auto

lemma str_includes_iff: "str_includes s t \<longleftrightarrow> (\<exists>p q. s = p @ t @ q)"
proof (induction s)
  case Nil
  then show ?case by auto
next
  case (Cons c s)
  show ?case
  proof
    assume "str_includes (c # s) t"
    then consider "startsWith (c # s) t" | "str_includes s t" by auto
    then show "\<exists>p q. c # s = p @ t @ q"
    proof cases
      case 1
      then obtain q where "c # s = t @ q" using startsWith_iff by blast
      then have "c # s = [] @ t @ q" by simp
      then show ?thesis by blast
    next
      case 2
      then obtain p q where "s = p @ t @ q" using Cons.IH by blast
      then have "c # s = (c # p) @ t @ q" by simp
      then show ?thesis by blast
    qed
  next
    assume "\<exists>p q. c # s = p @ t @ q"
    then obtain p q where pq: "c # s = p @ t @ q" by blast
    show "str_includes (c # s) t"
    proof (cases p)
      case Nil
      with pq have "startsWith (c # s) t" using startsWith_iff by auto
      then show ?thesis by simp
    next
      case (Cons a p')
      with pq have "s = p' @ t @ q" by simp
      then have "str_includes s t" using Cons.IH by blast
      then show ?thesis by simp
    qed
  qed
qed

subsection \<open>Severity normalization\<close>

lemma normalizeSeverity_JStr:
  "normalizeSeverity (JStr t) =
     Inr (if str_includes (toLowerCase t) ''major'' then ''Major''
          else if str_includes (toLowerCase t) ''moderate'' then ''Moderate''
          else if str_includes (toLowerCase t) ''minor'' then ''Minor''
          else ''None'')"
  by (cases "t = []") (simp_all add: normalizeSeverity_def toLowerCase_def)

text \<open>
  C3: \<^verbatim>\<open>normalizeSeverity\<close> never throws on a string or on an absent value.  It
  lower-cases the text and answers \<open>Major\<close> if that contains "major", else
  \<open>Moderate\<close> if it contains "moderate", else \<open>Minor\<close> if it contains "minor", else
  \<open>None\<close>; \<^verbatim>\<open>undefined\<close> and \<^verbatim>\<open>null\<close> give \<open>None\<close>.  The order of the tests decides
  for a text with several keywords, and the answer is always in the closed set.
\<close>

theorem normalizeSeverity_priority:
  "normalizeSeverity JUndefined = Inr ''None''
   \<and> normalizeSeverity JNull = Inr ''None''
   \<and> normalizeSeverity (JStr t) =
       Inr (if (\<exists>p q. toLowerCase t = p @ ''major'' @ q) then ''Major''
            else if (\<exists>p q. toLowerCase t = p @ ''moderate'' @ q) then ''Moderate''
            else if (\<exists>p q. toLowerCase t = p @ ''minor'' @ q) then ''Minor''
            else ''None'')
   \<and> (\<exists>s. normalizeSeverity (JStr t) = Inr s \<and> JStr s \<in> Severity)"
proof -
  have a: "normalizeSeverity JUndefined = Inr ''None''"
    by (simp add: normalizeSeverity_def toLowerCase_def)
  have b: "normalizeSeverity JNull = Inr ''None''"
    by (simp add: normalizeSeverity_def toLowerCase_def)
  have c: "normalizeSeverity (JStr t) =
       Inr (if (\<exists>p q. toLowerCase t = p @ ''major'' @ q) then ''Major''
            else if (\<exists>p q. toLowerCase t = p @ ''moderate'' @ q) then ''Moderate''
            else if (\<exists>p q. toLowerCase t = p @ ''minor'' @ q) then ''Minor''
            else ''None'')"
    unfolding normalizeSeverity_JStr str_includes_iff by (rule refl)
  have d: "\<exists>s. normalizeSeverity (JStr t) = Inr s \<and> JStr s \<in> Severity"
    unfolding normalizeSeverity_JStr by (simp add: Severity_def)
  from a b c d show ?thesis by blast
qed

text \<open>
  The priority example of the specification, with the keyword in capitals.
\<close>

theorem normalizeSeverity_priority_witness:
  "normalizeSeverity (JStr ''this is a MAJOR but also minor note'') = Inr ''Major''"
proof -
  have "str_includes (toLowerCase ''this is a MAJOR but also minor note'') ''major''"
    by code_simp
  then have "\<exists>p q. toLowerCase ''this is a MAJOR but also minor note'' = p @ ''major'' @ q"
    unfolding str_includes_iff .
  then show ?thesis
    using normalizeSeverity_priority [of "''this is a MAJOR but also minor note''"] by simp
qed

subsection \<open>Rows and events\<close>

lemma cell_cases: "cell r k = JUndefined \<or> cell r k = JNull \<or> (\<exists>s. cell r k = JStr s)"
  by (auto simp: cell_def split: option.splits)

lemma normalizeSeverity_total:
  "v = JUndefined \<or> v = JNull \<or> (\<exists>s. v = JStr s) \<Longrightarrow> \<exists>s. normalizeSeverity v = Inr s"
  by (auto simp: normalizeSeverity_def)

lemma fromDDInterRow_Inr: "\<exists>i. fromDDInterRow r = Inr i"
proof -
  obtain s where "normalizeSeverity (cell r ''interaction_severity'') = Inr s"
    using normalizeSeverity_total[OF cell_cases] by blast
  then show ?thesis by (simp add: fromDDInterRow_def)
qed

lemma fromDDInterRow_not_Inl [simp]: "fromDDInterRow r \<noteq> Inl e"
  using fromDDInterRow_Inr[of r] by auto

lemma queriesOf_append: "queriesOf (xs @ ys) = queriesOf xs @ queriesOf ys"
  by (induction xs rule: queriesOf.induct) auto

lemma queriesOf_readErrors: "queriesOf (readErrors t es) = []"
  by (simp add: readErrors_def)

lemma storeClient_resolves: "\<not> rejects (storeClient db) q"
  by (simp add: storeClient_def rejects_def split: option.splits)

subsection \<open>Prefixes up to a first element\<close>

lemma takeThrough_append:
  "takeThrough P (xs @ ys) =
     (if \<exists>x\<in>set xs. P x then takeThrough P xs else xs @ takeThrough P ys)"
  by (induction xs) auto

lemma takeThrough_idem: "takeThrough P (takeThrough P xs) = takeThrough P xs"
  by (induction xs) auto

lemma takeThrough_ex: "(\<exists>x\<in>set (takeThrough P xs). P x) \<longleftrightarrow> (\<exists>x\<in>set xs. P x)"
  by (induction xs) auto

lemma takeThrough_none: "\<forall>x\<in>set xs. \<not> P x \<Longrightarrow> takeThrough P xs = xs"
  by (induction xs) auto

lemma takeThrough_concat:
  "takeThrough P (concat (map (takeThrough P) xss)) = takeThrough P (concat xss)"
  by (induction xss)
    (simp_all add: takeThrough_append takeThrough_idem takeThrough_ex takeThrough_none)

subsection \<open>One source\<close>

lemma fit_queries:
  "queriesOf (snd (findInteractionInTable c a b t)) =
     takeThrough (\<lambda>q. hit c q \<or> rejects c q) (subqueries a b t)"
  by (simp add: findInteractionInTable_def Let_def subqueries_def hit_def firstHit_def rejects_def
      queriesOf_append queriesOf_readErrors
      split: qresult.split option.split)

lemma fit_found_iff:
  "(\<exists>i. fst (findInteractionInTable c a b t) = Inr (Some i)) \<longleftrightarrow>
   (\<exists>q \<in> set (takeThrough (\<lambda>q. hit c q \<or> rejects c q) (subqueries a b t)). hit c q)"
  by (auto simp: findInteractionInTable_def Let_def subqueries_def hit_def firstHit_def rejects_def
      map_sum_def split: qresult.split option.split sum.splits)

lemma fit_found_last:
  assumes "fst (findInteractionInTable c a b t) = Inr (Some i)"
  shows "takeThrough (hit c) (takeThrough (\<lambda>q. hit c q \<or> rejects c q) (subqueries a b t))
         = takeThrough (\<lambda>q. hit c q \<or> rejects c q) (subqueries a b t)"
  using assms
  by (auto simp: findInteractionInTable_def Let_def subqueries_def hit_def firstHit_def rejects_def
      map_sum_def split: qresult.splits option.splits sum.splits)

subsection \<open>The loop over the sources\<close>

lemma tryCandidates_queries:
  "queriesOf (snd (tryCandidates c a b ts)) =
     takeThrough (hit c)
       (concat (map (\<lambda>t. takeThrough (\<lambda>q. hit c q \<or> rejects c q) (subqueries a b t)) ts))"
proof (induction ts)
  case Nil
  then show ?case by simp
next
  case (Cons t ts)
  let ?A = "takeThrough (\<lambda>q. hit c q \<or> rejects c q) (subqueries a b t)"
  obtain r evs where f: "findInteractionInTable c a b t = (r, evs)"
    by (cases "findInteractionInTable c a b t")
  obtain r' evs' where g: "tryCandidates c a b ts = (r', evs')"
    by (cases "tryCandidates c a b ts")
  have q: "queriesOf evs = ?A" using fit_queries[of c a b t] f by simp
  show ?case
  proof (cases "\<exists>i. r = Inr (Some i)")
    case True
    then obtain i where i: "r = Inr (Some i)" by blast
    have "\<exists>q\<in>set ?A. hit c q" using fit_found_iff[of c a b t] f i by auto
    moreover have "takeThrough (hit c) ?A = ?A" using fit_found_last[of c a b t i] f i by simp
    ultimately show ?thesis using f i q by (simp add: takeThrough_append)
  next
    case False
    then have nohit: "\<not> (\<exists>q\<in>set ?A. hit c q)" using fit_found_iff[of c a b t] f by auto
    have "tryCandidates c a b (t # ts) = (r', evs @ evs')"
      using False f g by (cases r) (auto split: option.splits)
    then show ?thesis using nohit q g Cons.IH by (simp add: takeThrough_append queriesOf_append)
  qed
qed

lemma tryCandidates_found_iff:
  "(fst (tryCandidates c a b ts) \<noteq> None) \<longleftrightarrow>
   (\<exists>q \<in> set (queriesOf (snd (tryCandidates c a b ts))). hit c q)"
proof (induction ts)
  case Nil
  then show ?case by simp
next
  case (Cons t ts)
  let ?A = "takeThrough (\<lambda>q. hit c q \<or> rejects c q) (subqueries a b t)"
  obtain r evs where f: "findInteractionInTable c a b t = (r, evs)"
    by (cases "findInteractionInTable c a b t")
  obtain r' evs' where g: "tryCandidates c a b ts = (r', evs')"
    by (cases "tryCandidates c a b ts")
  have q: "queriesOf evs = ?A" using fit_queries[of c a b t] f by simp
  show ?case
  proof (cases "\<exists>i. r = Inr (Some i)")
    case True
    then obtain i where i: "r = Inr (Some i)" by blast
    have "\<exists>q\<in>set ?A. hit c q" using fit_found_iff[of c a b t] f i by auto
    then show ?thesis using f i q by simp
  next
    case False
    then have nohit: "\<not> (\<exists>q\<in>set ?A. hit c q)" using fit_found_iff[of c a b t] f by auto
    have "tryCandidates c a b (t # ts) = (r', evs @ evs')"
      using False f g by (cases r) (auto split: option.splits)
    then show ?thesis using nohit q g Cons.IH by (auto simp: queriesOf_append)
  qed
qed

subsection \<open>The handler on two non-empty strings\<close>

lemma POST_strings:
  assumes "d1 \<noteq> []" "d2 \<noteq> []"
  shows "POST (Some c) envTable (Fields (JStr d1) (JStr d2)) =
     (case tryCandidates c (trim (toLowerCase d1)) (trim (toLowerCase d2))
             (tableCandidates envTable) of
        (Some i, evs) \<Rightarrow>
          (\<lparr>status = 200,
            payload = InteractionBody
              \<lparr>drug1 = JStr (trim d1), drug2 = JStr (trim d2), severity = severity i,
               description = description i, interaction = interaction i\<rparr>\<rparr>, evs)
      | (None, evs) \<Rightarrow> (fallback (trim d1) (trim d2), evs))"
  using assms
  by (simp add: POST_def handle_def normalizeDrugName_def respond_def fallback_def
      split: prod.splits option.splits)





subsection \<open>Validation\<close>

text \<open>
  C2, at the failing input: \<^verbatim>\<open>drug1\<close> is a single space, which is empty after
  trimming.  The handler does not answer 400 with "Both drug names are required": it
  issues a query, with the pattern \<^verbatim>\<open>%%\<close> for the first name, and answers 200 with the
  record of warfarin and aspirin.
\<close>

theorem whitespace_name_not_rejected:
  "trim '' '' = []
   \<and> POST (Some (storeClient (legacyStore [legacyRow ''warfarin'' ''aspirin'' ''Major''])))
        None (Fields (JStr '' '') (JStr ''aspirin'')) =
       (\<lparr>status = 200,
         payload = InteractionBody
           \<lparr>drug1 = JStr [], drug2 = JStr ''aspirin'', severity = JStr ''Major'',
            description = JNull, interaction = JNull\<rparr>\<rparr>,
        [Query (selectA ''drug_interactions'' ''%%'' ''%aspirin%'')])"
  by code_simp

text \<open>
  The values the guard does reject: a missing, \<^verbatim>\<open>null\<close>, empty or otherwise falsy name
  is answered with 400 before any query.
\<close>

lemma guard_rejects_falsy:
  assumes "\<not> truthy d1 \<or> \<not> truthy d2"
  shows "POST (Some c) envTable (Fields d1 d2) =
           (\<lparr>status = 400, payload = ErrorBody ''Both drug names are required''\<rparr>, [])"
  using assms by (auto simp: POST_def handle_def)

subsection \<open>Severity of a record of the legacy variant\<close>

text \<open>
  C1, at the failing input: a record of the legacy variant with the severity text
  "Major bleeding risk" is answered with that text, which is not one of the four
  severities; \<^verbatim>\<open>normalizeSeverity\<close> is not applied on this path.
\<close>

theorem legacy_severity_passed_raw:
  "fst (POST (Some (storeClient (legacyStore
                [legacyRow ''warfarin'' ''aspirin'' ''Major bleeding risk''])))
          None (Fields (JStr ''warfarin'') (JStr ''aspirin''))) =
     \<lparr>status = 200,
      payload = InteractionBody
        \<lparr>drug1 = JStr ''warfarin'', drug2 = JStr ''aspirin'',
         severity = JStr ''Major bleeding risk'',
         description = JNull, interaction = JNull\<rparr>\<rparr>
   \<and> JStr ''Major bleeding risk'' \<notin> Severity"
proof -
  have "JStr ''Major bleeding risk'' \<notin> Severity" by (simp add: Severity_def)
  moreover have "fst (POST (Some (storeClient (legacyStore
                [legacyRow ''warfarin'' ''aspirin'' ''Major bleeding risk''])))
          None (Fields (JStr ''warfarin'') (JStr ''aspirin''))) =
     \<lparr>status = 200,
      payload = InteractionBody
        \<lparr>drug1 = JStr ''warfarin'', drug2 = JStr ''aspirin'',
         severity = JStr ''Major bleeding risk'',
         description = JNull, interaction = JNull\<rparr>\<rparr>"
    by code_simp
  ultimately show ?thesis by blast
qed

subsection \<open>The fallback\<close>

lemma set_takeThrough: "set (takeThrough P xs) \<subseteq> set xs"
  by (induction xs) auto

lemma tryCandidates_none:
  assumes "\<forall>t\<in>set ts. \<forall>q\<in>set (subqueries a b t). \<not> hit c q"
  shows "fst (tryCandidates c a b ts) = None"
proof (rule ccontr)
  assume "fst (tryCandidates c a b ts) \<noteq> None"
  then obtain q where q: "q \<in> set (queriesOf (snd (tryCandidates c a b ts)))" and h: "hit c q"
    using tryCandidates_found_iff by blast
  let ?f = "\<lambda>t. takeThrough (\<lambda>q. hit c q \<or> rejects c q) (subqueries a b t)"
  have "set (takeThrough (hit c) (concat (map ?f ts))) \<subseteq> set (concat (map ?f ts))"
    by (rule set_takeThrough)
  with q have "q \<in> set (concat (map ?f ts))"
    unfolding tryCandidates_queries by (rule subsetD[rotated])
  then obtain t where t: "t \<in> set ts" and "q \<in> set (?f t)" by auto
  moreover have "set (?f t) \<subseteq> set (subqueries a b t)" by (rule set_takeThrough)
  ultimately have "q \<in> set (subqueries a b t)" by (rule_tac subsetD)
  with assms h t show False by blast
qed

lemma fallback_texts:
  "fallbackDescription \<noteq> [] \<and> fallbackInteraction \<noteq> []
   \<and> str_includes fallbackInteraction ''always consult with your healthcare provider''"
  by code_simp

text \<open>
  C4: for two non-empty names, when no sub-query of any candidate source yields a
  record, the handler answers 200 with the fallback: severity \<open>None\<close> and the two
  fixed, non-empty texts, the second of which recommends consulting a healthcare
  provider.
\<close>

theorem no_match_gives_fallback:
  assumes "d1 \<noteq> []" and "d2 \<noteq> []"
    and "\<forall>t\<in>set (tableCandidates envTable).
           \<forall>q\<in>set (subqueries (trim (toLowerCase d1)) (trim (toLowerCase d2)) t). \<not> hit c q"
  shows "fst (POST (Some c) envTable (Fields (JStr d1) (JStr d2))) =
           \<lparr>status = 200,
            payload = InteractionBody
              \<lparr>drug1 = JStr (trim d1), drug2 = JStr (trim d2), severity = JStr ''None'',
               description = JStr fallbackDescription,
               interaction = JStr fallbackInteraction\<rparr>\<rparr>
         \<and> fallbackDescription \<noteq> [] \<and> fallbackInteraction \<noteq> []
         \<and> str_includes fallbackInteraction ''always consult with your healthcare provider''"
proof -
  have "fst (tryCandidates c (trim (toLowerCase d1)) (trim (toLowerCase d2))
               (tableCandidates envTable)) = None"
    using assms(3) by (rule tryCandidates_none)
  then have "fst (POST (Some c) envTable (Fields (JStr d1) (JStr d2))) =
               fallback (trim d1) (trim d2)"
    using assms(1,2) by (auto simp: POST_strings split: prod.splits)
  then have "fst (POST (Some c) envTable (Fields (JStr d1) (JStr d2))) =
           \<lparr>status = 200,
            payload = InteractionBody
              \<lparr>drug1 = JStr (trim d1), drug2 = JStr (trim d2), severity = JStr ''None'',
               description = JStr fallbackDescription,
               interaction = JStr fallbackInteraction\<rparr>\<rparr>"
    by (simp only: fallback_def)
  then show ?thesis using fallback_texts by (rule conjI)
qed

theorem no_match_gives_fallback_witness:
  "fst (POST (Some (storeClient (legacyStore [legacyRow ''warfarin'' ''aspirin'' ''Major''])))
          None (Fields (JStr ''Aspirin'') (JStr '' Ibuprofen ''))) =
           \<lparr>status = 200,
            payload = InteractionBody
              \<lparr>drug1 = JStr ''Aspirin'', drug2 = JStr ''Ibuprofen'', severity = JStr ''None'',
               description = JStr fallbackDescription,
               interaction = JStr fallbackInteraction\<rparr>\<rparr>"
proof -
  let ?c = "storeClient (legacyStore [legacyRow ''warfarin'' ''aspirin'' ''Major''])"
  have h1: "''Aspirin'' \<noteq> []" and h2: "'' Ibuprofen '' \<noteq> []" by simp_all
  have h3: "\<forall>t\<in>set (tableCandidates None).
           \<forall>q\<in>set (subqueries (trim (toLowerCase ''Aspirin''))
                      (trim (toLowerCase '' Ibuprofen '')) t). \<not> hit ?c q"
    by code_simp
  have t: "trim ''Aspirin'' = ''Aspirin''" "trim '' Ibuprofen '' = ''Ibuprofen''"
    by code_simp+
  from no_match_gives_fallback [OF h1 h2 h3] t show ?thesis by simp
qed

subsection \<open>The echoed names\<close>

text \<open>
  C7: every response with status 200 comes from a request whose two names are
  strings, and its \<^verbatim>\<open>drug1\<close> and \<^verbatim>\<open>drug2\<close> are those strings trimmed, in their
  original case, whatever the matched record holds.
\<close>

theorem success_echoes_trimmed_names:
  assumes "status (fst (POST client envTable req)) = 200"
  shows "\<exists>d1 d2 i. req = Fields (JStr d1) (JStr d2)
           \<and> payload (fst (POST client envTable req)) = InteractionBody i
           \<and> drug1 i = JStr (trim d1) \<and> drug2 i = JStr (trim d2)"
proof -
  from assms obtain c where c: "client = Some c"
    by (cases client) (auto simp: POST_def handle_def)
  from assms c obtain v1 v2 where r: "req = Fields v1 v2"
    by (cases req) (auto simp: POST_def handle_def)
  from assms c r have tr: "truthy v1" "truthy v2"
    by (auto simp: POST_def handle_def split: if_splits)
  from assms c r tr obtain d1 where v1: "v1 = JStr d1"
    by (cases v1) (auto simp: POST_def handle_def normalizeDrugName_def)
  from assms c r tr v1 obtain d2 where v2: "v2 = JStr d2"
    by (cases v2) (auto simp: POST_def handle_def normalizeDrugName_def)
  from tr v1 v2 have ne: "d1 \<noteq> []" "d2 \<noteq> []" by simp_all
  show ?thesis
    unfolding c r v1 v2 POST_strings [OF ne]
    by (auto simp: fallback_def split: prod.splits option.splits)
qed

theorem success_echoes_trimmed_names_witness:
  "fst (POST (Some (storeClient (legacyStore [legacyRow ''warfarin'' ''aspirin'' ''Major''])))
          None (Fields (JStr '' Aspirin'') (JStr ''WARFARIN  ''))) =
     \<lparr>status = 200,
      payload = InteractionBody
        \<lparr>drug1 = JStr ''Aspirin'', drug2 = JStr ''WARFARIN'', severity = JStr ''Major'',
         description = JNull, interaction = JNull\<rparr>\<rparr>
   \<and> (\<exists>d1 d2 i. Fields (JStr '' Aspirin'') (JStr ''WARFARIN  '') = Fields (JStr d1) (JStr d2)
           \<and> payload (fst (POST (Some (storeClient (legacyStore
                 [legacyRow ''warfarin'' ''aspirin'' ''Major''])))
               None (Fields (JStr '' Aspirin'') (JStr ''WARFARIN  '')))) = InteractionBody i
           \<and> drug1 i = JStr (trim d1) \<and> drug2 i = JStr (trim d2))"
proof -
  let ?P = "POST (Some (storeClient (legacyStore [legacyRow ''warfarin'' ''aspirin'' ''Major''])))
          None (Fields (JStr '' Aspirin'') (JStr ''WARFARIN  ''))"
  have e: "fst ?P =
     \<lparr>status = 200,
      payload = InteractionBody
        \<lparr>drug1 = JStr ''Aspirin'', drug2 = JStr ''WARFARIN'', severity = JStr ''Major'',
         description = JNull, interaction = JNull\<rparr>\<rparr>"
    by code_simp
  then have s: "status (fst ?P) = 200" by simp
  from success_echoes_trimmed_names [OF s] e show ?thesis by blast
qed

subsection \<open>A record of the DDInter variant\<close>

text \<open>
  C9: when the first sub-query of a source that yields a record is one of the two of
  variant B (and no sub-query before it rejected), the record built has \<^verbatim>\<open>drug1\<close> and
  \<^verbatim>\<open>drug2\<close> from \<^verbatim>\<open>primary_drug_name\<close> and \<^verbatim>\<open>secondary_drug_name\<close>, the severity
  \<^verbatim>\<open>normalizeSeverity(interaction_severity)\<close>, which does not throw, and no
  \<^verbatim>\<open>description\<close> and no \<^verbatim>\<open>interaction\<close>.
\<close>

theorem ddinter_record_construction:
  assumes "subqueries a b t = [qA1, qB1, qA2, qB2]"
    and "\<not> rejects c qA1" and "\<not> hit c qA1"
    and "firstHit c qB1 = Some r
         \<or> (\<not> rejects c qB1 \<and> \<not> hit c qB1 \<and> \<not> rejects c qA2 \<and> \<not> hit c qA2
            \<and> firstHit c qB2 = Some r)"
  shows "\<exists>sev. normalizeSeverity (cell r ''interaction_severity'') = Inr sev
           \<and> fst (findInteractionInTable c a b t) =
               Inr (Some \<lparr>drug1 = cell r ''primary_drug_name'',
                          drug2 = cell r ''secondary_drug_name'',
                          severity = JStr sev,
                          description = JUndefined, interaction = JUndefined\<rparr>)"
proof -
  obtain sev where sev: "normalizeSeverity (cell r ''interaction_severity'') = Inr sev"
    using normalizeSeverity_total [OF cell_cases] by blast
  then have dd: "fromDDInterRow r =
      Inr \<lparr>drug1 = cell r ''primary_drug_name'', drug2 = cell r ''secondary_drug_name'',
           severity = JStr sev, description = JUndefined, interaction = JUndefined\<rparr>"
    by (simp add: fromDDInterRow_def)
  from assms(1) have q:
    "qA1 = selectA t (''%'' @ a @ ''%'') (''%'' @ b @ ''%'')"
    "qB1 = selectB t (''%'' @ a @ ''%'') (''%'' @ b @ ''%'')"
    "qA2 = selectA t (''%'' @ b @ ''%'') (''%'' @ a @ ''%'')"
    "qB2 = selectB t (''%'' @ b @ ''%'') (''%'' @ a @ ''%'')"
    by (simp_all add: subqueries_def)
  have "fst (findInteractionInTable c a b t) = map_sum (\<lambda>e. e) Some (fromDDInterRow r)"
    using assms(2-4) unfolding q
    by (auto simp: findInteractionInTable_def Let_def hit_def firstHit_def rejects_def
        split: qresult.splits option.splits)
  with sev dd show ?thesis by simp
qed

text \<open>
  The DDInter scenario of the specification: the free severity text becomes \<open>Minor\<close>.
\<close>

theorem ddinter_record_construction_witness:
  "fst (findInteractionInTable
          (storeClient (ddinterStore [ddinterRow ''metformin'' ''lisinopril''
             ''no significant interaction - minor monitoring advised'']))
          ''metformin'' ''lisinopril'' ''drug_interactions'') =
     Inr (Some \<lparr>drug1 = JStr ''metformin'', drug2 = JStr ''lisinopril'',
                severity = JStr ''Minor'',
                description = JUndefined, interaction = JUndefined\<rparr>)"
proof -
  let ?r = "ddinterRow ''metformin'' ''lisinopril''
             ''no significant interaction - minor monitoring advised''"
  let ?c = "storeClient (ddinterStore [?r])"
  let ?qA1 = "selectA ''drug_interactions'' ''%metformin%'' ''%lisinopril%''"
  let ?qB1 = "selectB ''drug_interactions'' ''%metformin%'' ''%lisinopril%''"
  let ?qA2 = "selectA ''drug_interactions'' ''%lisinopril%'' ''%metformin%''"
  let ?qB2 = "selectB ''drug_interactions'' ''%lisinopril%'' ''%metformin%''"
  have h1: "subqueries ''metformin'' ''lisinopril'' ''drug_interactions'' =
              [?qA1, ?qB1, ?qA2, ?qB2]"
    by (simp add: subqueries_def)
  have h2: "\<not> rejects ?c ?qA1" by code_simp
  have h3: "\<not> hit ?c ?qA1" by code_simp
  have h4: "firstHit ?c ?qB1 = Some ?r" by code_simp
  have n: "normalizeSeverity (cell ?r ''interaction_severity'') = Inr ''Minor''" by code_simp
  have c1: "cell ?r ''primary_drug_name'' = JStr ''metformin''" by code_simp
  have c2: "cell ?r ''secondary_drug_name'' = JStr ''lisinopril''" by code_simp
  from ddinter_record_construction [OF h1 h2 h3 disjI1, OF h4] n c1 c2
  show ?thesis by simp
qed

subsection \<open>Names of white space only\<close>








subsection \<open>Failing queries\<close>

text \<open>
  C8 as stated fails for a client whose queries throw: nothing is logged, and of
  each source only the first sub-query is issued.
\<close>

theorem rejected_queries_counterexample:
  "consoleOf (snd (POST (Some (\<lambda>q. Rejected)) None
                    (Fields (JStr ''aspirin'') (JStr ''ibuprofen'')))) = []
   \<and> queriesOf (snd (POST (Some (\<lambda>q. Rejected)) None
                    (Fields (JStr ''aspirin'') (JStr ''ibuprofen'')))) =
       [selectA ''drug_interactions'' ''%aspirin%'' ''%ibuprofen%'',
        selectA ''DrugInteraction'' ''%aspirin%'' ''%ibuprofen%'',
        selectA ''druginteraction'' ''%aspirin%'' ''%ibuprofen%'']"
  by code_simp

lemma fails_not_hit: "fails c q \<Longrightarrow> \<not> hit c q"
  by (auto simp: fails_def hit_def firstHit_def split: qresult.splits)

lemma POST_strings_status:
  assumes "d1 \<noteq> []" and "d2 \<noteq> []"
  shows "status (fst (POST (Some c) envTable (Fields (JStr d1) (JStr d2)))) = 200"
  unfolding POST_strings [OF assms]
  by (simp add: fallback_def split: prod.splits option.splits)

lemma POST_strings_fallback:
  assumes "d1 \<noteq> []" and "d2 \<noteq> []"
    and "\<forall>t\<in>set (tableCandidates envTable).
           \<forall>q\<in>set (subqueries (trim (toLowerCase d1)) (trim (toLowerCase d2)) t). \<not> hit c q"
  shows "fst (POST (Some c) envTable (Fields (JStr d1) (JStr d2))) = fallback (trim d1) (trim d2)"
proof -
  have "fst (tryCandidates c (trim (toLowerCase d1)) (trim (toLowerCase d2))
               (tableCandidates envTable)) = None"
    using assms(3) by (rule tryCandidates_none)
  then show ?thesis
    using assms(1,2) by (auto simp: POST_strings split: prod.splits)
qed

lemma fit_all_resolved:
  assumes "\<forall>q\<in>set (subqueries a b t). \<not> rejects c q \<and> \<not> hit c q"
  shows "findInteractionInTable c a b t =
           (Inr None, map Query (subqueries a b t)
                      @ readErrors t (map (errorOf c) (subqueries a b t)))"
  using assms
  by (auto simp: findInteractionInTable_def Let_def subqueries_def hit_def firstHit_def
      rejects_def errorOf_def split: qresult.splits option.splits)

lemma consoleOf_queries: "consoleOf (map Query qs) = []"
  by (induction qs) simp_all

lemma map_filter_messages:
  "List.map_filter (\<lambda>e. e) es = concat (map (\<lambda>e. case e of None \<Rightarrow> [] | Some m \<Rightarrow> [m]) es)"
  by (induction es) (auto simp: List.map_filter_simps split: option.splits)

lemma readErrors_explicit:
  "readErrors t es =
     (if \<exists>e\<in>set es. e \<noteq> None
      then [ConsoleError (''Supabase read errors for table '' @ t @ '':'')
              (join '' | '' (concat (map (\<lambda>e. case e of None \<Rightarrow> [] | Some m \<Rightarrow> [m]) es)))]
      else [])"
  unfolding readErrors_def map_filter_messages by (simp add: list_ex_iff)

lemma consoleOf_append: "consoleOf (xs @ ys) = consoleOf xs @ consoleOf ys"
  by (induction xs rule: consoleOf.induct) auto

lemma queriesOf_queries: "queriesOf (map Query qs) = qs"
  by (induction qs) simp_all

lemma consoleOf_readErrors: "consoleOf (readErrors t es) = readErrors t es"
  by (simp add: readErrors_def)

lemma fit_all_resolved_explicit:
  assumes "\<forall>q\<in>set (subqueries a b t). \<not> rejects c q \<and> \<not> hit c q"
  shows "fst (findInteractionInTable c a b t) = Inr None
       \<and> queriesOf (snd (findInteractionInTable c a b t)) = subqueries a b t
       \<and> consoleOf (snd (findInteractionInTable c a b t)) =
           (if \<exists>q\<in>set (subqueries a b t). errorOf c q \<noteq> None
            then [ConsoleError (''Supabase read errors for table '' @ t @ '':'')
                    (join '' | ''
                       (concat (map (\<lambda>q. case errorOf c q of None \<Rightarrow> [] | Some m \<Rightarrow> [m])
                                    (subqueries a b t))))]
            else [])"
proof -
  define qs where "qs = subqueries a b t"
  have f: "findInteractionInTable c a b t =
             (Inr None, map Query qs @ readErrors t (map (errorOf c) qs))"
    unfolding qs_def using assms by (rule fit_all_resolved)
  have 1: "fst (findInteractionInTable c a b t) = Inr None" unfolding f by simp
  have 2: "queriesOf (snd (findInteractionInTable c a b t)) = qs"
    unfolding f by (simp add: queriesOf_append queriesOf_queries queriesOf_readErrors)
  have "consoleOf (snd (findInteractionInTable c a b t)) = readErrors t (map (errorOf c) qs)"
    unfolding f by (simp add: consoleOf_append consoleOf_queries consoleOf_readErrors)
  also have "\<dots> =
           (if \<exists>q\<in>set qs. errorOf c q \<noteq> None
            then [ConsoleError (''Supabase read errors for table '' @ t @ '':'')
                    (join '' | ''
                       (concat (map (\<lambda>q. case errorOf c q of None \<Rightarrow> [] | Some m \<Rightarrow> [m]) qs)))]
            else [])"
    unfolding readErrors_explicit by (simp add: comp_def)
  finally have 3: "consoleOf (snd (findInteractionInTable c a b t)) =
           (if \<exists>q\<in>set qs. errorOf c q \<noteq> None
            then [ConsoleError (''Supabase read errors for table '' @ t @ '':'')
                    (join '' | ''
                       (concat (map (\<lambda>q. case errorOf c q of None \<Rightarrow> [] | Some m \<Rightarrow> [m]) qs)))]
            else [])" .
  from 1 2 3 show ?thesis unfolding qs_def by (intro conjI)
qed

lemma fit_console:
  assumes "consoleOf (snd (findInteractionInTable c a b t)) \<noteq> []"
  shows "fst (findInteractionInTable c a b t) = Inr None
       \<and> queriesOf (snd (findInteractionInTable c a b t)) = subqueries a b t
       \<and> (\<exists>q\<in>set (subqueries a b t). errorOf c q \<noteq> None)"
proof -
  have r: "\<forall>q\<in>set (subqueries a b t). \<not> rejects c q \<and> \<not> hit c q"
    using assms
    by (auto simp: findInteractionInTable_def Let_def subqueries_def hit_def firstHit_def
        rejects_def split: qresult.splits option.splits)
  note e = fit_all_resolved_explicit [OF r]
  from e have 1: "fst (findInteractionInTable c a b t) = Inr None" by (rule conjunct1)
  from e have 2: "queriesOf (snd (findInteractionInTable c a b t)) = subqueries a b t"
    by (rule conjunct1 [OF conjunct2])
  from e have 3: "consoleOf (snd (findInteractionInTable c a b t)) =
           (if \<exists>q\<in>set (subqueries a b t). errorOf c q \<noteq> None
            then [ConsoleError (''Supabase read errors for table '' @ t @ '':'')
                    (join '' | ''
                       (concat (map (\<lambda>q. case errorOf c q of None \<Rightarrow> [] | Some m \<Rightarrow> [m])
                                    (subqueries a b t))))]
            else [])"
    by (rule conjunct2 [OF conjunct2])
  have 4: "\<exists>q\<in>set (subqueries a b t). errorOf c q \<noteq> None"
  proof (rule ccontr)
    assume "\<not> (\<exists>q\<in>set (subqueries a b t). errorOf c q \<noteq> None)"
    then have "consoleOf (snd (findInteractionInTable c a b t)) = []"
      unfolding 3 by (rule if_not_P)
    with assms show False by contradiction
  qed
  from 1 2 4 show ?thesis by (intro conjI)
qed

lemma fit_thrown:
  assumes "fst (findInteractionInTable c a b t) = Inl e"
  shows "e = QueryRejected \<and> rejects c (last (queriesOf (snd (findInteractionInTable c a b t))))"
  using assms
  by (auto simp: findInteractionInTable_def Let_def rejects_def map_sum_def
      split: qresult.splits option.splits sum.splits)

lemma tryCandidates_continue:
  assumes "\<nexists>i. fst (findInteractionInTable c a b t) = Inr (Some i)"
  shows "tryCandidates c a b (t # ts) =
           (fst (tryCandidates c a b ts),
            snd (findInteractionInTable c a b t) @ snd (tryCandidates c a b ts))"
proof -
  obtain r evs where f: "findInteractionInTable c a b t = (r, evs)"
    by (cases "findInteractionInTable c a b t")
  obtain r' evs' where g: "tryCandidates c a b ts = (r', evs')"
    by (cases "tryCandidates c a b ts")
  from assms f have "\<nexists>i. r = Inr (Some i)" by simp
  then show ?thesis using f g by (cases r) (auto split: option.splits)
qed

text \<open>
  C8, as amended: a failing sub-query is never surfaced: a request with two non-empty
  names is answered with status 200, and with the fallback when every sub-query of
  every source fails.  An error result does not end a source: only a record or a
  thrown exception does.  When the four sub-queries of a source resolve without a
  record, all four were issued, and if at least one of them came with an error, one
  line is logged that names the source and joins the messages of those that did;
  without any error nothing is logged.  Nothing is logged for a source that returned
  a record or threw; a source throws only because a query rejected, at which it
  stops.  After a source without a record, thrown or not, the loop goes on with the
  next source.
\<close>

theorem transport_failures_recovered:
  assumes "d1 \<noteq> []" and "d2 \<noteq> []"
  shows "status (fst (POST (Some c) envTable (Fields (JStr d1) (JStr d2)))) = 200
   \<and> ((\<forall>t\<in>set (tableCandidates envTable).
         \<forall>q\<in>set (subqueries (trim (toLowerCase d1)) (trim (toLowerCase d2)) t). fails c q) \<longrightarrow>
       fst (POST (Some c) envTable (Fields (JStr d1) (JStr d2))) = fallback (trim d1) (trim d2))
   \<and> queriesOf (snd (findInteractionInTable c a b t)) =
         takeThrough (\<lambda>q. hit c q \<or> rejects c q) (subqueries a b t)
   \<and> ((\<forall>q\<in>set (subqueries a b t). \<not> rejects c q \<and> \<not> hit c q) \<longrightarrow>
       fst (findInteractionInTable c a b t) = Inr None
       \<and> queriesOf (snd (findInteractionInTable c a b t)) = subqueries a b t
       \<and> consoleOf (snd (findInteractionInTable c a b t)) =
           (if \<exists>q\<in>set (subqueries a b t). errorOf c q \<noteq> None
            then [ConsoleError (''Supabase read errors for table '' @ t @ '':'')
                    (join '' | ''
                       (concat (map (\<lambda>q. case errorOf c q of None \<Rightarrow> [] | Some m \<Rightarrow> [m])
                                    (subqueries a b t))))]
            else []))
   \<and> (consoleOf (snd (findInteractionInTable c a b t)) \<noteq> [] \<longrightarrow>
       fst (findInteractionInTable c a b t) = Inr None
       \<and> queriesOf (snd (findInteractionInTable c a b t)) = subqueries a b t
       \<and> (\<exists>q\<in>set (subqueries a b t). errorOf c q \<noteq> None))
   \<and> (\<forall>e. fst (findInteractionInTable c a b t) = Inl e \<longrightarrow>
         e = QueryRejected
         \<and> rejects c (last (queriesOf (snd (findInteractionInTable c a b t)))))
   \<and> ((\<nexists>i. fst (findInteractionInTable c a b t) = Inr (Some i)) \<longrightarrow>
       tryCandidates c a b (t # ts) =
         (fst (tryCandidates c a b ts),
          snd (findInteractionInTable c a b t) @ snd (tryCandidates c a b ts)))"
proof -
  have 1: "status (fst (POST (Some c) envTable (Fields (JStr d1) (JStr d2)))) = 200"
    using assms by (rule POST_strings_status)
  have 2: "(\<forall>t\<in>set (tableCandidates envTable).
         \<forall>q\<in>set (subqueries (trim (toLowerCase d1)) (trim (toLowerCase d2)) t). fails c q) \<longrightarrow>
       fst (POST (Some c) envTable (Fields (JStr d1) (JStr d2))) = fallback (trim d1) (trim d2)"
  proof
    assume f: "\<forall>t\<in>set (tableCandidates envTable).
         \<forall>q\<in>set (subqueries (trim (toLowerCase d1)) (trim (toLowerCase d2)) t). fails c q"
    show "fst (POST (Some c) envTable (Fields (JStr d1) (JStr d2))) = fallback (trim d1) (trim d2)"
    proof (rule POST_strings_fallback [OF assms])
      show "\<forall>t\<in>set (tableCandidates envTable).
           \<forall>q\<in>set (subqueries (trim (toLowerCase d1)) (trim (toLowerCase d2)) t). \<not> hit c q"
        using f fails_not_hit by blast
    qed
  qed
  note 3 = fit_queries [of c a b t]
  note 4 = impI [OF fit_all_resolved_explicit [of a b t c]]
  note 5 = impI [OF fit_console [of c a b t]]
  have 6: "\<forall>e. fst (findInteractionInTable c a b t) = Inl e \<longrightarrow>
         e = QueryRejected
         \<and> rejects c (last (queriesOf (snd (findInteractionInTable c a b t))))"
    using fit_thrown [of c a b t] by blast
  note 7 = impI [OF tryCandidates_continue [of c a b t ts]]
  from 1 2 3 4 5 6 7 show ?thesis by (intro conjI)
qed

theorem transport_failures_recovered_witness:
  "fst (POST (Some (storeClient (\<lambda>t. None))) None
          (Fields (JStr ''aspirin'') (JStr ''ibuprofen''))) = fallback ''aspirin'' ''ibuprofen''
   \<and> queriesOf (snd (findInteractionInTable (storeClient (legacyStore []))
                       ''aspirin'' ''ibuprofen'' ''drug_interactions'')) =
       subqueries ''aspirin'' ''ibuprofen'' ''drug_interactions''
   \<and> consoleOf (snd (findInteractionInTable (storeClient (legacyStore []))
                       ''aspirin'' ''ibuprofen'' ''drug_interactions'')) =
       [ConsoleError ''Supabase read errors for table drug_interactions:''
          ''column does not exist | column does not exist'']
   \<and> tryCandidates (\<lambda>q. Rejected) ''aspirin'' ''ibuprofen'' [''DrugInteraction'', ''druginteraction''] =
       (None, [Query (selectA ''DrugInteraction'' ''%aspirin%'' ''%ibuprofen%''),
               Query (selectA ''druginteraction'' ''%aspirin%'' ''%ibuprofen%'')])"
proof -
  let ?c = "storeClient (\<lambda>t. None)"
  let ?l = "storeClient (legacyStore [])"
  let ?r = "\<lambda>q::query. Rejected"
  let ?F = "findInteractionInTable ?l ''aspirin'' ''ibuprofen'' ''drug_interactions''"
  let ?S = "subqueries ''aspirin'' ''ibuprofen'' ''drug_interactions''"
  have h1: "''aspirin'' \<noteq> []" and h2: "''ibuprofen'' \<noteq> []" by simp_all
  have n: "trim (toLowerCase ''aspirin'') = ''aspirin''"
     "trim (toLowerCase ''ibuprofen'') = ''ibuprofen''"
     "trim ''aspirin'' = ''aspirin''" "trim ''ibuprofen'' = ''ibuprofen''"
    by code_simp+
  have h3: "\<forall>t\<in>set (tableCandidates None).
         \<forall>q\<in>set (subqueries ''aspirin'' ''ibuprofen'' t). fails ?c q"
    by code_simp
  note t = transport_failures_recovered [OF h1 h2, where c = "?c" and envTable = None, unfolded n]
  from t have "(\<forall>t\<in>set (tableCandidates None).
         \<forall>q\<in>set (subqueries ''aspirin'' ''ibuprofen'' t). fails ?c q) \<longrightarrow>
       fst (POST (Some ?c) None (Fields (JStr ''aspirin'') (JStr ''ibuprofen''))) =
         fallback ''aspirin'' ''ibuprofen''"
    by (rule conjunct1 [OF conjunct2])
  then have a: "fst (POST (Some ?c) None
          (Fields (JStr ''aspirin'') (JStr ''ibuprofen''))) = fallback ''aspirin'' ''ibuprofen''"
    using h3 by (rule mp)
  have h4: "\<forall>q\<in>set ?S. \<not> rejects ?l q \<and> \<not> hit ?l q"
    by code_simp
  have e: "(if \<exists>q\<in>set ?S. errorOf ?l q \<noteq> None
            then [ConsoleError (''Supabase read errors for table '' @ ''drug_interactions'' @ '':'')
                    (join '' | ''
                       (concat (map (\<lambda>q. case errorOf ?l q of None \<Rightarrow> [] | Some m \<Rightarrow> [m]) ?S)))]
            else []) =
       [ConsoleError ''Supabase read errors for table drug_interactions:''
          ''column does not exist | column does not exist'']"
    by code_simp
  note u = transport_failures_recovered [OF h1 h2, where c = "?l"
      and a = "''aspirin''" and b = "''ibuprofen''" and t = "''drug_interactions''"]
  from u have "(\<forall>q\<in>set ?S. \<not> rejects ?l q \<and> \<not> hit ?l q) \<longrightarrow>
       fst ?F = Inr None
       \<and> queriesOf (snd ?F) = ?S
       \<and> consoleOf (snd ?F) =
           (if \<exists>q\<in>set ?S. errorOf ?l q \<noteq> None
            then [ConsoleError (''Supabase read errors for table '' @ ''drug_interactions'' @ '':'')
                    (join '' | ''
                       (concat (map (\<lambda>q. case errorOf ?l q of None \<Rightarrow> [] | Some m \<Rightarrow> [m]) ?S)))]
            else [])"
    by (rule conjunct1 [OF conjunct2 [OF conjunct2 [OF conjunct2]]])
  then have v: "fst ?F = Inr None
       \<and> queriesOf (snd ?F) = ?S
       \<and> consoleOf (snd ?F) =
           (if \<exists>q\<in>set ?S. errorOf ?l q \<noteq> None
            then [ConsoleError (''Supabase read errors for table '' @ ''drug_interactions'' @ '':'')
                    (join '' | ''
                       (concat (map (\<lambda>q. case errorOf ?l q of None \<Rightarrow> [] | Some m \<Rightarrow> [m]) ?S)))]
            else [])"
    using h4 by (rule mp)
  from v have b1: "queriesOf (snd ?F) = ?S" by (rule conjunct1 [OF conjunct2])
  from v have "consoleOf (snd ?F) =
           (if \<exists>q\<in>set ?S. errorOf ?l q \<noteq> None
            then [ConsoleError (''Supabase read errors for table '' @ ''drug_interactions'' @ '':'')
                    (join '' | ''
                       (concat (map (\<lambda>q. case errorOf ?l q of None \<Rightarrow> [] | Some m \<Rightarrow> [m]) ?S)))]
            else [])"
    by (rule conjunct2 [OF conjunct2])
  then have b2: "consoleOf (snd ?F) =
       [ConsoleError ''Supabase read errors for table drug_interactions:''
          ''column does not exist | column does not exist'']"
    unfolding e .
  have f: "findInteractionInTable ?r ''aspirin'' ''ibuprofen'' ''DrugInteraction'' =
             (Inl QueryRejected, [Query (selectA ''DrugInteraction'' ''%aspirin%'' ''%ibuprofen%'')])"
    by code_simp
  then have h5: "\<nexists>i. fst (findInteractionInTable ?r ''aspirin'' ''ibuprofen'' ''DrugInteraction'')
                      = Inr (Some i)"
    by simp
  have g: "tryCandidates ?r ''aspirin'' ''ibuprofen'' [''druginteraction''] =
             (None, [Query (selectA ''druginteraction'' ''%aspirin%'' ''%ibuprofen%'')])"
    by code_simp
  note t' = transport_failures_recovered [OF h1 h2, where c = "?r"
      and a = "''aspirin''" and b = "''ibuprofen''" and t = "''DrugInteraction''"
      and ts = "[''druginteraction'']"]
  from t' have "(\<nexists>i. fst (findInteractionInTable ?r ''aspirin'' ''ibuprofen'' ''DrugInteraction'')
                      = Inr (Some i)) \<longrightarrow>
       tryCandidates ?r ''aspirin'' ''ibuprofen'' [''DrugInteraction'', ''druginteraction''] =
         (fst (tryCandidates ?r ''aspirin'' ''ibuprofen'' [''druginteraction'']),
          snd (findInteractionInTable ?r ''aspirin'' ''ibuprofen'' ''DrugInteraction'')
          @ snd (tryCandidates ?r ''aspirin'' ''ibuprofen'' [''druginteraction'']))"
    by (rule conjunct2 [OF conjunct2 [OF conjunct2 [OF conjunct2 [OF conjunct2 [OF conjunct2]]]]])
  then have "tryCandidates ?r ''aspirin'' ''ibuprofen'' [''DrugInteraction'', ''druginteraction''] =
         (fst (tryCandidates ?r ''aspirin'' ''ibuprofen'' [''druginteraction'']),
          snd (findInteractionInTable ?r ''aspirin'' ''ibuprofen'' ''DrugInteraction'')
          @ snd (tryCandidates ?r ''aspirin'' ''ibuprofen'' [''druginteraction'']))"
    using h5 by (rule mp)
  then have c: "tryCandidates ?r ''aspirin'' ''ibuprofen'' [''DrugInteraction'', ''druginteraction''] =
       (None, [Query (selectA ''DrugInteraction'' ''%aspirin%'' ''%ibuprofen%''),
               Query (selectA ''druginteraction'' ''%aspirin%'' ''%ibuprofen%'')])"
    unfolding f g by simp
  from a b1 b2 c show ?thesis by (intro conjI)
qed

subsection \<open>The two orders of a pair\<close>

text \<open>
  C6 as stated fails for a store that holds the pair in both orders with different
  severities: each order of the request is answered from the record stored in that
  order.
\<close>

theorem swapped_severity_counterexample:
  "fst (POST (Some (storeClient (legacyStore
          [legacyRow ''warfarin'' ''aspirin'' ''Major'',
           legacyRow ''aspirin'' ''warfarin'' ''Minor''])))
        None (Fields (JStr ''warfarin'') (JStr ''aspirin''))) =
     \<lparr>status = 200,
      payload = InteractionBody
        \<lparr>drug1 = JStr ''warfarin'', drug2 = JStr ''aspirin'', severity = JStr ''Major'',
         description = JNull, interaction = JNull\<rparr>\<rparr>
   \<and> fst (POST (Some (storeClient (legacyStore
          [legacyRow ''warfarin'' ''aspirin'' ''Major'',
           legacyRow ''aspirin'' ''warfarin'' ''Minor''])))
        None (Fields (JStr ''aspirin'') (JStr ''warfarin''))) =
     \<lparr>status = 200,
      payload = InteractionBody
        \<lparr>drug1 = JStr ''aspirin'', drug2 = JStr ''warfarin'', severity = JStr ''Minor'',
         description = JNull, interaction = JNull\<rparr>\<rparr>"
  by code_simp

lemma tryCandidates_found_no_reject:
  assumes "\<forall>q. \<not> rejects c q"
  shows "(fst (tryCandidates c a b ts) \<noteq> None) \<longleftrightarrow>
         (\<exists>t\<in>set ts. \<exists>q\<in>set (subqueries a b t). hit c q)"
proof -
  from assms have s: "(\<lambda>q. hit c q \<or> rejects c q) = hit c" by auto
  have "queriesOf (snd (tryCandidates c a b ts)) =
          takeThrough (hit c) (concat (map (takeThrough (hit c)) (map (subqueries a b) ts)))"
    unfolding tryCandidates_queries s by (simp add: comp_def)
  then have q: "queriesOf (snd (tryCandidates c a b ts)) =
          takeThrough (hit c) (concat (map (subqueries a b) ts))"
    by (simp only: takeThrough_concat)
  have "(fst (tryCandidates c a b ts) \<noteq> None) \<longleftrightarrow>
        (\<exists>q\<in>set (concat (map (subqueries a b) ts)). hit c q)"
    unfolding tryCandidates_found_iff q by (rule takeThrough_ex)
  then show ?thesis by auto
qed

lemma fit_result:
  assumes "\<forall>q. \<not> rejects c q"
  shows "fst (findInteractionInTable c a b t) =
    (case firstHit c (selectA t (''%'' @ a @ ''%'') (''%'' @ b @ ''%'')) of
       Some r \<Rightarrow> Inr (Some (asDrugInteraction r))
     | None \<Rightarrow>
    (case firstHit c (selectB t (''%'' @ a @ ''%'') (''%'' @ b @ ''%'')) of
       Some r \<Rightarrow> map_sum (\<lambda>e. e) Some (fromDDInterRow r)
     | None \<Rightarrow>
    (case firstHit c (selectA t (''%'' @ b @ ''%'') (''%'' @ a @ ''%'')) of
       Some r \<Rightarrow> Inr (Some (asDrugInteraction r))
     | None \<Rightarrow>
    (case firstHit c (selectB t (''%'' @ b @ ''%'') (''%'' @ a @ ''%'')) of
       Some r \<Rightarrow> map_sum (\<lambda>e. e) Some (fromDDInterRow r)
     | None \<Rightarrow> Inr None))))"
  using assms
  by (simp add: findInteractionInTable_def Let_def firstHit_def rejects_def
      split: qresult.split option.split)

lemma selectA_not_selectB: "selectA t p q \<noteq> selectB t' p' q'"
  by (simp add: selectA_def selectB_def)

lemma fit_swap:
  assumes nr: "\<forall>q. \<not> rejects c q"
    and u: "\<forall>q\<in>set (subqueries x y t). \<forall>q'\<in>set (subqueries x y t).
              hit c q \<longrightarrow> hit c q' \<longrightarrow> q = q'"
  shows "fst (findInteractionInTable c x y t) = fst (findInteractionInTable c y x t)"
proof -
  define A1 where "A1 = selectA t (''%'' @ x @ ''%'') (''%'' @ y @ ''%'')"
  define B1 where "B1 = selectB t (''%'' @ x @ ''%'') (''%'' @ y @ ''%'')"
  define A2 where "A2 = selectA t (''%'' @ y @ ''%'') (''%'' @ x @ ''%'')"
  define B2 where "B2 = selectB t (''%'' @ y @ ''%'') (''%'' @ x @ ''%'')"
  have sq: "subqueries x y t = [A1, B1, A2, B2]"
    by (simp add: subqueries_def A1_def B1_def A2_def B2_def)
  have ne: "A1 \<noteq> B1" "A1 \<noteq> B2" "A2 \<noteq> B1" "A2 \<noteq> B2"
    unfolding A1_def B1_def A2_def B2_def by (rule selectA_not_selectB)+
  have m: "A1 \<in> set (subqueries x y t)" "B1 \<in> set (subqueries x y t)"
          "A2 \<in> set (subqueries x y t)" "B2 \<in> set (subqueries x y t)"
    unfolding sq by simp_all
  have pair: "q = q'"
    if "q \<in> set (subqueries x y t)" "q' \<in> set (subqueries x y t)" "hit c q" "hit c q'"
    for q q'
    using u that by blast
  have ab: "\<not> (hit c A1 \<and> hit c B1)" "\<not> (hit c A1 \<and> hit c B2)"
           "\<not> (hit c A2 \<and> hit c B1)" "\<not> (hit c A2 \<and> hit c B2)"
    using pair [OF m(1) m(2)] pair [OF m(1) m(4)] pair [OF m(3) m(2)] pair [OF m(3) m(4)] ne
    by blast+
  have aa: "hit c A1 \<Longrightarrow> hit c A2 \<Longrightarrow> A1 = A2"
    by (rule pair [OF m(1) m(3)])
  have bb: "hit c B1 \<Longrightarrow> hit c B2 \<Longrightarrow> B1 = B2"
    by (rule pair [OF m(2) m(4)])
  have r1: "fst (findInteractionInTable c x y t) =
    (case firstHit c A1 of Some r \<Rightarrow> Inr (Some (asDrugInteraction r)) | None \<Rightarrow>
    (case firstHit c B1 of Some r \<Rightarrow> map_sum (\<lambda>e. e) Some (fromDDInterRow r) | None \<Rightarrow>
    (case firstHit c A2 of Some r \<Rightarrow> Inr (Some (asDrugInteraction r)) | None \<Rightarrow>
    (case firstHit c B2 of Some r \<Rightarrow> map_sum (\<lambda>e. e) Some (fromDDInterRow r)
     | None \<Rightarrow> Inr None))))"
    unfolding A1_def B1_def A2_def B2_def using nr by (rule fit_result)
  have r2: "fst (findInteractionInTable c y x t) =
    (case firstHit c A2 of Some r \<Rightarrow> Inr (Some (asDrugInteraction r)) | None \<Rightarrow>
    (case firstHit c B2 of Some r \<Rightarrow> map_sum (\<lambda>e. e) Some (fromDDInterRow r) | None \<Rightarrow>
    (case firstHit c A1 of Some r \<Rightarrow> Inr (Some (asDrugInteraction r)) | None \<Rightarrow>
    (case firstHit c B1 of Some r \<Rightarrow> map_sum (\<lambda>e. e) Some (fromDDInterRow r)
     | None \<Rightarrow> Inr None))))"
    unfolding A1_def B1_def A2_def B2_def using nr by (rule fit_result)
  show ?thesis
  proof (cases "firstHit c A1")
    case None
    note a1 = None
    show ?thesis
    proof (cases "firstHit c A2")
      case None
      note a2 = None
      show ?thesis
      proof (cases "firstHit c B1")
        case None
        then show ?thesis unfolding r1 r2 using a1 a2 by (simp split: option.splits)
      next
        case (Some r)
        then have h: "hit c B1" by (simp add: hit_def)
        show ?thesis
        proof (cases "firstHit c B2")
          case None
          then show ?thesis unfolding r1 r2 using a1 a2 Some by simp
        next
          case (Some r')
          then have "hit c B2" by (simp add: hit_def)
          with h have "B1 = B2" by (rule bb)
          then show ?thesis unfolding r1 r2 using a1 a2 by (simp split: option.splits)
        qed
      qed
    next
      case (Some r)
      then have h: "hit c A2" by (simp add: hit_def)
      with ab have "\<not> hit c B1" "\<not> hit c B2" by auto
      then have "firstHit c B1 = None" "firstHit c B2 = None" by (simp_all add: hit_def)
      then show ?thesis unfolding r1 r2 using a1 Some by simp
    qed
  next
    case (Some r)
    note a1 = Some
    then have h: "hit c A1" by (simp add: hit_def)
    with ab have "\<not> hit c B1" "\<not> hit c B2" by auto
    then have b: "firstHit c B1 = None" "firstHit c B2 = None" by (simp_all add: hit_def)
    show ?thesis
    proof (cases "firstHit c A2")
      case None
      then show ?thesis unfolding r1 r2 using a1 b by simp
    next
      case (Some r')
      then have "hit c A2" by (simp add: hit_def)
      with h have "A1 = A2" by (rule aa)
      with a1 Some have "r' = r" by simp
      then show ?thesis unfolding r1 r2 using a1 Some by simp
    qed
  qed
qed

lemma subqueries_swap: "set (subqueries y x t) = set (subqueries x y t)"
  by (auto simp: subqueries_def)

lemma tryCandidates_swap:
  assumes "\<forall>q. \<not> rejects c q"
    and "\<forall>t\<in>set ts. \<forall>q\<in>set (subqueries x y t). \<forall>q'\<in>set (subqueries x y t).
            hit c q \<longrightarrow> hit c q' \<longrightarrow> q = q'"
  shows "fst (tryCandidates c x y ts) = fst (tryCandidates c y x ts)"
  using assms(2)
proof (induction ts)
  case Nil
  then show ?case by simp
next
  case (Cons t ts)
  have e: "fst (findInteractionInTable c x y t) = fst (findInteractionInTable c y x t)"
    using assms(1) Cons.prems by (intro fit_swap) simp_all
  have ih: "fst (tryCandidates c x y ts) = fst (tryCandidates c y x ts)"
    using Cons by simp
  obtain r evs where f: "findInteractionInTable c x y t = (r, evs)"
    by (cases "findInteractionInTable c x y t")
  obtain r' evs' where f': "findInteractionInTable c y x t = (r', evs')"
    by (cases "findInteractionInTable c y x t")
  from e f f' have rr: "r' = r" by simp
  show ?case
    using f f' rr ih
    by (cases r) (auto split: option.splits prod.splits)
qed

lemma POST_strings_payload:
  assumes "d1 \<noteq> []" and "d2 \<noteq> []"
  shows "\<exists>i. payload (fst (POST (Some c) envTable (Fields (JStr d1) (JStr d2)))) = InteractionBody i
     \<and> (case fst (tryCandidates c (trim (toLowerCase d1)) (trim (toLowerCase d2))
                    (tableCandidates envTable)) of
          Some f \<Rightarrow> severity i = severity f \<and> description i = description f
                     \<and> interaction i = interaction f
        | None \<Rightarrow> severity i = JStr ''None'' \<and> description i = JStr fallbackDescription
                     \<and> interaction i = JStr fallbackInteraction)"
  unfolding POST_strings [OF assms]
  by (simp add: fallback_def split: prod.splits option.splits)

text \<open>
  C6, as amended: with a client that never rejects, when a sub-query of variant A or
  B for the pair (x, y) yields a record in some candidate source, the lookups for
  (x, y) and for (y, x) both end with a record.  The two answers carry the same
  severity, description and interaction when in every source no two different
  sub-queries yield a record; otherwise each lookup returns the record of its own
  first successful sub-query.
\<close>

theorem swapped_lookup_finds_record:
  assumes "dx \<noteq> []" and "dy \<noteq> []"
    and "\<forall>q. \<not> rejects c q"
    and "t \<in> set (tableCandidates envTable)"
    and "hit c (selectA t (''%'' @ trim (toLowerCase dx) @ ''%'') (''%'' @ trim (toLowerCase dy) @ ''%''))
         \<or> hit c (selectB t (''%'' @ trim (toLowerCase dx) @ ''%'') (''%'' @ trim (toLowerCase dy) @ ''%''))"
  shows "fst (tryCandidates c (trim (toLowerCase dx)) (trim (toLowerCase dy))
                (tableCandidates envTable)) \<noteq> None
       \<and> fst (tryCandidates c (trim (toLowerCase dy)) (trim (toLowerCase dx))
                (tableCandidates envTable)) \<noteq> None
       \<and> ((\<forall>t\<in>set (tableCandidates envTable).
             \<forall>q\<in>set (subqueries (trim (toLowerCase dx)) (trim (toLowerCase dy)) t).
             \<forall>q'\<in>set (subqueries (trim (toLowerCase dx)) (trim (toLowerCase dy)) t).
               hit c q \<longrightarrow> hit c q' \<longrightarrow> q = q') \<longrightarrow>
           (\<exists>i j. payload (fst (POST (Some c) envTable (Fields (JStr dx) (JStr dy))))
                     = InteractionBody i
                 \<and> payload (fst (POST (Some c) envTable (Fields (JStr dy) (JStr dx))))
                     = InteractionBody j
                 \<and> severity i = severity j \<and> description i = description j
                 \<and> interaction i = interaction j))"
proof -
  define x where "x = trim (toLowerCase dx)"
  define y where "y = trim (toLowerCase dy)"
  define ts where "ts = tableCandidates envTable"
  define qa where "qa = selectA t (''%'' @ x @ ''%'') (''%'' @ y @ ''%'')"
  define qb where "qb = selectB t (''%'' @ x @ ''%'') (''%'' @ y @ ''%'')"
  have h: "hit c qa \<or> hit c qb" using assms(5) unfolding qa_def qb_def x_def y_def .
  have mem: "qa \<in> set (subqueries x y t)" "qb \<in> set (subqueries x y t)"
    unfolding qa_def qb_def subqueries_def by simp_all
  have tm: "t \<in> set ts" using assms(4) unfolding ts_def .
  from h mem have e1: "\<exists>q\<in>set (subqueries x y t). hit c q" by blast
  then have e2: "\<exists>q\<in>set (subqueries y x t). hit c q" by (simp only: subqueries_swap)
  have f1: "fst (tryCandidates c x y ts) \<noteq> None"
    unfolding tryCandidates_found_no_reject [OF assms(3)] using tm e1 by blast
  have f2: "fst (tryCandidates c y x ts) \<noteq> None"
    unfolding tryCandidates_found_no_reject [OF assms(3)] using tm e2 by blast
  have f3: "\<exists>i j. payload (fst (POST (Some c) envTable (Fields (JStr dx) (JStr dy))))
                     = InteractionBody i
                 \<and> payload (fst (POST (Some c) envTable (Fields (JStr dy) (JStr dx))))
                     = InteractionBody j
                 \<and> severity i = severity j \<and> description i = description j
                 \<and> interaction i = interaction j"
    if u: "\<forall>t\<in>set ts. \<forall>q\<in>set (subqueries x y t). \<forall>q'\<in>set (subqueries x y t).
               hit c q \<longrightarrow> hit c q' \<longrightarrow> q = q'"
  proof -
    have sw: "fst (tryCandidates c x y ts) = fst (tryCandidates c y x ts)"
      using assms(3) u by (rule tryCandidates_swap)
    from f1 obtain f where f: "fst (tryCandidates c x y ts) = Some f" by blast
    obtain i where i: "payload (fst (POST (Some c) envTable (Fields (JStr dx) (JStr dy))))
                         = InteractionBody i"
        "severity i = severity f" "description i = description f" "interaction i = interaction f"
      using POST_strings_payload [OF assms(1,2), of c envTable] f
      unfolding x_def y_def ts_def by auto
    obtain j where j: "payload (fst (POST (Some c) envTable (Fields (JStr dy) (JStr dx))))
                         = InteractionBody j"
        "severity j = severity f" "description j = description f" "interaction j = interaction f"
      using POST_strings_payload [OF assms(2,1), of c envTable] f sw
      unfolding x_def y_def ts_def by auto
    from i j show ?thesis by auto
  qed
  from f1 f2 f3 show ?thesis unfolding x_def y_def ts_def by blast
qed

theorem swapped_lookup_finds_record_witness:
  "fst (tryCandidates (storeClient (legacyStore [legacyRow ''warfarin'' ''aspirin'' ''Major'']))
          ''warfarin'' ''aspirin'' (tableCandidates None)) \<noteq> None
   \<and> fst (tryCandidates (storeClient (legacyStore [legacyRow ''warfarin'' ''aspirin'' ''Major'']))
          ''aspirin'' ''warfarin'' (tableCandidates None)) \<noteq> None
   \<and> (\<exists>i j. payload (fst (POST (Some (storeClient (legacyStore
                   [legacyRow ''warfarin'' ''aspirin'' ''Major''])))
                 None (Fields (JStr ''Warfarin'') (JStr ''Aspirin'')))) = InteractionBody i
          \<and> payload (fst (POST (Some (storeClient (legacyStore
                   [legacyRow ''warfarin'' ''aspirin'' ''Major''])))
                 None (Fields (JStr ''Aspirin'') (JStr ''Warfarin'')))) = InteractionBody j
          \<and> severity i = severity j \<and> description i = description j
          \<and> interaction i = interaction j)"
proof -
  let ?c = "storeClient (legacyStore [legacyRow ''warfarin'' ''aspirin'' ''Major''])"
  have h1: "''Warfarin'' \<noteq> []" and h2: "''Aspirin'' \<noteq> []" by simp_all
  have h3: "\<forall>q. \<not> rejects ?c q" by (simp add: storeClient_resolves)
  have h4: "''drug_interactions'' \<in> set (tableCandidates None)"
    by (simp add: tableCandidates_def)
  have n: "trim (toLowerCase ''Warfarin'') = ''warfarin''"
          "trim (toLowerCase ''Aspirin'') = ''aspirin''"
    by code_simp+
  have "hit ?c (selectA ''drug_interactions'' (''%'' @ ''warfarin'' @ ''%'')
                  (''%'' @ ''aspirin'' @ ''%''))"
    by code_simp
  then have h5: "hit ?c (selectA ''drug_interactions'' (''%'' @ trim (toLowerCase ''Warfarin'') @ ''%'')
                      (''%'' @ trim (toLowerCase ''Aspirin'') @ ''%''))
          \<or> hit ?c (selectB ''drug_interactions'' (''%'' @ trim (toLowerCase ''Warfarin'') @ ''%'')
                      (''%'' @ trim (toLowerCase ''Aspirin'') @ ''%''))"
    unfolding n by (rule disjI1)
  have "\<forall>t\<in>set (tableCandidates None).
             \<forall>q\<in>set (subqueries ''warfarin'' ''aspirin'' t).
             \<forall>q'\<in>set (subqueries ''warfarin'' ''aspirin'' t).
               hit ?c q \<longrightarrow> hit ?c q' \<longrightarrow> q = q'"
    by code_simp
  then have h6: "\<forall>t\<in>set (tableCandidates None).
             \<forall>q\<in>set (subqueries (trim (toLowerCase ''Warfarin'')) (trim (toLowerCase ''Aspirin'')) t).
             \<forall>q'\<in>set (subqueries (trim (toLowerCase ''Warfarin'')) (trim (toLowerCase ''Aspirin'')) t).
               hit ?c q \<longrightarrow> hit ?c q' \<longrightarrow> q = q'"
    unfolding n .
  note t = swapped_lookup_finds_record [OF h1 h2 h3 h4 h5]
  from t have a: "fst (tryCandidates ?c ''warfarin'' ''aspirin'' (tableCandidates None)) \<noteq> None"
    unfolding n by (rule conjunct1)
  from t have b: "fst (tryCandidates ?c ''aspirin'' ''warfarin'' (tableCandidates None)) \<noteq> None"
    unfolding n by (rule conjunct1 [OF conjunct2])
  from t have "(\<forall>t\<in>set (tableCandidates None).
             \<forall>q\<in>set (subqueries (trim (toLowerCase ''Warfarin'')) (trim (toLowerCase ''Aspirin'')) t).
             \<forall>q'\<in>set (subqueries (trim (toLowerCase ''Warfarin'')) (trim (toLowerCase ''Aspirin'')) t).
               hit ?c q \<longrightarrow> hit ?c q' \<longrightarrow> q = q') \<longrightarrow>
       (\<exists>i j. payload (fst (POST (Some ?c) None (Fields (JStr ''Warfarin'') (JStr ''Aspirin''))))
                  = InteractionBody i
          \<and> payload (fst (POST (Some ?c) None (Fields (JStr ''Aspirin'') (JStr ''Warfarin''))))
                  = InteractionBody j
          \<and> severity i = severity j \<and> description i = description j
          \<and> interaction i = interaction j)"
    by (rule conjunct2 [OF conjunct2])
  then have c: "\<exists>i j. payload (fst (POST (Some ?c) None (Fields (JStr ''Warfarin'') (JStr ''Aspirin''))))
                  = InteractionBody i
          \<and> payload (fst (POST (Some ?c) None (Fields (JStr ''Aspirin'') (JStr ''Warfarin''))))
                  = InteractionBody j
          \<and> severity i = severity j \<and> description i = description j
          \<and> interaction i = interaction j"
    using h6 by (rule mp)
  from a b c show ?thesis by (intro conjI)
qed

end
